theory Spec2Isabelle
  imports Main
begin

section \<open>JavaScript strings\<close>

text \<open>
  A JavaScript string is a sequence of UTF-16 code units. Both regular expressions of
  \<open>startDownload\<close> are written without the \<open>u\<close> flag, so they work on code units, and so
  do \<open>split\<close>, \<open>includes\<close> and \<open>trim\<close>. A code unit is modelled by its number; \<open>js\<close>
  embeds an ASCII literal.
\<close>

type_synonym code_unit = nat
type_synonym jsstring = "code_unit list"

abbreviation cu :: "char \<Rightarrow> code_unit" where
  "cu c \<equiv> of_char c"

definition js :: "string \<Rightarrow> jsstring" where
  "js s = map cu s"

text \<open>
  The class \<open>\s\<close> of a JavaScript regular expression, which is also the set of code units
  that \<open>String.prototype.trim\<close> strips (WhiteSpace and LineTerminator): U+0009 to U+000D,
  U+0020, U+00A0, U+1680, U+2000 to U+200A, U+2028, U+2029, U+202F, U+205F, U+3000, U+FEFF.
\<close>

definition js_space :: "code_unit \<Rightarrow> bool" where
  "js_space c \<longleftrightarrow>
     (9 \<le> c \<and> c \<le> 13) \<or> c = 32 \<or> c = 160 \<or> c = 5760 \<or> (8192 \<le> c \<and> c \<le> 8202) \<or>
     c = 8232 \<or> c = 8233 \<or> c = 8239 \<or> c = 8287 \<or> c = 12288 \<or> c = 65279"

text \<open>The class \<open>[a-zA-Z0-9\s\-_]\<close>; its complement is what line 47 removes.\<close>

definition title_char :: "code_unit \<Rightarrow> bool" where
  "title_char c \<longleftrightarrow>
     (cu CHR ''a'' \<le> c \<and> c \<le> cu CHR ''z'') \<or> (cu CHR ''A'' \<le> c \<and> c \<le> cu CHR ''Z'') \<or>
     (cu CHR ''0'' \<le> c \<and> c \<le> cu CHR ''9'') \<or> js_space c \<or> c = cu CHR ''-'' \<or> c = cu CHR ''_''"

text \<open>\<open>s.replace(/[^a-zA-Z0-9\s\-_]/g, '')\<close>: every match is one code unit, replaced by nothing.\<close>

definition replace_special :: "jsstring \<Rightarrow> jsstring" where
  "replace_special s = filter title_char s"

text \<open>
  \<open>s.replace(/\s+/g, '_')\<close>: the scan goes left to right, \<open>\s+\<close> is greedy, so each match is
  a maximal run of white space, and the scan resumes after the run.
\<close>

function replace_spaces :: "jsstring \<Rightarrow> jsstring" where
  "replace_spaces [] = []"
| "replace_spaces (c # cs) =
     (if js_space c then cu CHR ''_'' # replace_spaces (dropWhile js_space cs)
      else c # replace_spaces cs)"
  by pat_completeness auto
termination
  by (relation "measure length") (auto simp: length_dropWhile_le less_Suc_eq_le)

text \<open>\<open>s.trim()\<close>: white space removed at both ends.\<close>

definition js_trim :: "jsstring \<Rightarrow> jsstring" where
  "js_trim s = rev (dropWhile js_space (rev (dropWhile js_space s)))"

text \<open>
  \<open>s.split(sep)\<close> for a separator of one code unit: the pieces between the separators, in
  order; never the empty array (\<open>''.split('/')\<close> is \<open>['']\<close>), so \<open>pop()\<close> is the last piece.
\<close>

fun js_split :: "code_unit \<Rightarrow> jsstring \<Rightarrow> jsstring list" where
  "js_split sep [] = [] # []"
| "js_split sep (c # cs) =
     (if c = sep then [] # js_split sep cs
      else (case js_split sep cs of [] \<Rightarrow> [c] # [] | x # xs \<Rightarrow> (c # x) # xs))"

definition js_pop :: "jsstring list \<Rightarrow> jsstring" where
  "js_pop xs = last xs"

section \<open>The filename derivation of \<open>startDownload\<close> (lines 40 to 51)\<close>

text \<open>
  Line 40: \<open>product.file_url.split('/').pop() || product.file_url\<close>. The empty string is
  falsy, so a reference that ends in \<open>/\<close> is kept whole.
\<close>

definition filename :: "jsstring \<Rightarrow> jsstring" where
  "filename file_url =
     (let popped = js_pop (js_split (cu CHR ''/'') file_url)
      in if popped = [] then file_url else popped)"

text \<open>Line 43: \<open>filename.includes('.') ? '.' + filename.split('.').pop() : '.zip'\<close>.\<close>

definition fileExtension :: "jsstring \<Rightarrow> jsstring" where
  "fileExtension fname =
     (if cu CHR ''.'' \<in> set fname then cu CHR ''.'' # js_pop (js_split (cu CHR ''.'') fname)
      else js ''.zip'')"

text \<open>Lines 46 to 49: the two replacements, then \<open>trim\<close>, in this order.\<close>

definition sanitizedTitle :: "jsstring \<Rightarrow> jsstring" where
  "sanitizedTitle title = js_trim (replace_spaces (replace_special title))"

text \<open>Line 51.\<close>

definition downloadFilename :: "jsstring \<Rightarrow> jsstring \<Rightarrow> jsstring" where
  "downloadFilename title file_url = sanitizedTitle title @ fileExtension (filename file_url)"

section \<open>The Derived Filename as the specification words it\<close>

text \<open>
  Section 4.2, step 2 of the specification. The basename of a reference is what follows
  its last \<open>/\<close> (the whole reference when it has none); the extension is what follows the
  last \<open>.\<close> of the basename. The title is trimmed: the white space at its ends does not
  reach the filename (section 8, item 3: the title \<open>  multi   space  name\<close> gives
  \<open>multi_space_name\<close>), so the trim acts on the white space, before the runs that remain
  become underscores.
\<close>

definition after_last :: "code_unit \<Rightarrow> jsstring \<Rightarrow> jsstring" where
  "after_last sep s = rev (takeWhile (\<lambda>c. c \<noteq> sep) (rev s))"

definition basename_spec :: "jsstring \<Rightarrow> jsstring" where
  "basename_spec fileRef = after_last (cu CHR ''/'') fileRef"

definition extension_spec :: "jsstring \<Rightarrow> jsstring" where
  "extension_spec b =
     (if cu CHR ''.'' \<in> set b then cu CHR ''.'' # after_last (cu CHR ''.'') b else js ''.zip'')"

definition strip_spec :: "jsstring \<Rightarrow> jsstring" where
  "strip_spec title = filter title_char title"

text \<open>
  A run of white space becomes one underscore: a white-space unit followed by another one
  disappears, the last unit of the run becomes the underscore.
\<close>

fun collapse_spec :: "jsstring \<Rightarrow> jsstring" where
  "collapse_spec [] = []"
| "collapse_spec [c] = [if js_space c then cu CHR ''_'' else c]"
| "collapse_spec (c # d # cs) =
     (if js_space c \<and> js_space d then collapse_spec (d # cs)
      else (if js_space c then cu CHR ''_'' else c) # collapse_spec (d # cs))"

definition title_spec :: "jsstring \<Rightarrow> jsstring" where
  "title_spec title = collapse_spec (js_trim (strip_spec title))"

definition derived_filename_spec :: "jsstring \<Rightarrow> jsstring \<Rightarrow> jsstring" where
  "derived_filename_spec title fileRef =
     title_spec title @ extension_spec (basename_spec fileRef)"

section \<open>One delivery attempt: \<open>startDownload\<close> (lines 34 to 168)\<close>

text \<open>
  The component reads \<open>title\<close> and \<open>file_url\<close> of its \<open>product\<close> property; \<open>file_url\<close> is
  optional. (\<open>id\<close> is never read, and \<open>price\<close> only by \<open>isFree\<close>, which nothing uses.)
\<close>

record product =
  title :: jsstring
  file_url :: "jsstring option"

text \<open>
  The truthiness test of lines 38 and 63 on an optional string: \<open>undefined\<close> and the empty
  string are falsy. The result is the string when it is truthy.
\<close>

definition truthy :: "jsstring option \<Rightarrow> jsstring option" where
  "truthy v = (case v of None \<Rightarrow> None | Some s \<Rightarrow> if s = [] then None else Some s)"

text \<open>
  A thrown value is an \<open>Error\<close> with its message or a value that is no instance of
  \<open>Error\<close>; line 162 tells them apart.
\<close>

datatype js_exn = JsError jsstring | NonError

text \<open>
  What the collaborators answer during one attempt. The awaited \<open>createSignedUrl\<close> rejects,
  or resolves to \<open>{ data, error }\<close>: \<open>data\<close> is \<open>null\<close> or carries \<open>signedUrl\<close>, \<open>error\<close> is
  \<open>null\<close> or carries \<open>message\<close>. The awaited \<open>fetch\<close> rejects or resolves to a response, of
  which the code reads \<open>ok\<close> (the status of a response that is not ok only goes into a
  logged message). The three flags say whether the rest of a strategy throws: lines 84 to
  109 (reading the blob and saving it through a hidden link), lines 123 to 131 (the
  temporary anchor) and line 143 (the assignment to \<open>window.location.href\<close>), whose
  exception is the only one of the three that leaves the cascade.
\<close>

datatype storage_result =
    StorageRejects js_exn
  | StorageResolves "jsstring option" "jsstring option"

datatype fetch_result = FetchRejects | FetchResolves bool

record env =
  createSignedUrl :: "jsstring \<Rightarrow> jsstring \<Rightarrow> nat \<Rightarrow> storage_result"
  fetch :: "jsstring \<Rightarrow> fetch_result"
  blob_save_throws :: bool
  anchor_throws :: bool
  location_throws :: "js_exn option"

text \<open>
  What one attempt does, in program order: the two state setters, the call of the storage
  collaborator (bucket, path, seconds of validity), the three strategies and the toast
  (title, description, destructive variant). \<open>SaveBlob\<close> is the click of line 103 on the
  link whose \<open>download\<close> is the argument, with its deferred cleanup; \<open>Anchor\<close> is strategy
  2 entered with \<open>href\<close> and \<open>download\<close>; \<open>Navigate\<close> is strategy 3. Console output is left
  out.
\<close>

datatype action =
    SetIsDownloading bool
  | SetDownloadComplete bool
  | CreateSignedUrl jsstring jsstring nat
  | Fetch jsstring
  | SaveBlob jsstring
  | Anchor jsstring jsstring
  | Navigate jsstring
  | Toast jsstring jsstring bool

definition started_toast :: "product \<Rightarrow> action" where
  "started_toast p =
     Toast (js ''Download Started'') (title p @ js '' download has been initiated'') False"

text \<open>
  A block of statements yields its actions and, when it throws, the thrown value.
  \<open>first_do a r\<close> is the action \<open>a\<close> followed by the block \<open>r\<close>.
\<close>

definition first_do :: "action \<Rightarrow> action list \<times> js_exn option \<Rightarrow> action list \<times> js_exn option" where
  "first_do a r = (a # fst r, snd r)"

text \<open>Lines 117 to 150: the two fallbacks.\<close>

definition direct_download :: "product \<Rightarrow> env \<Rightarrow> jsstring \<Rightarrow> jsstring \<Rightarrow> action list \<times> js_exn option" where
  "direct_download p e signedUrl dlname =
     (if \<not> anchor_throws e
      then ([Anchor signedUrl dlname, SetDownloadComplete True, started_toast p], None)
      else (case location_throws e of
              None \<Rightarrow>
                ([Anchor signedUrl dlname, Navigate signedUrl, SetDownloadComplete True,
                  started_toast p], None)
            | Some x \<Rightarrow> ([Anchor signedUrl dlname, Navigate signedUrl], Some x)))"

text \<open>Lines 67 to 151: the buffered fetch, and the fallbacks when anything in it throws.\<close>

definition blob_download :: "product \<Rightarrow> env \<Rightarrow> jsstring \<Rightarrow> jsstring \<Rightarrow> action list \<times> js_exn option" where
  "blob_download p e signedUrl dlname =
     (case fetch e signedUrl of
        FetchRejects \<Rightarrow> first_do (Fetch signedUrl) (direct_download p e signedUrl dlname)
      | FetchResolves ok \<Rightarrow>
          if \<not> ok then first_do (Fetch signedUrl) (direct_download p e signedUrl dlname)
          else if blob_save_throws e
          then first_do (Fetch signedUrl) (direct_download p e signedUrl dlname)
          else ([Fetch signedUrl, SaveBlob dlname, SetDownloadComplete True,
                 Toast (js ''Download Complete'')
                   (title p @ js '' has been downloaded successfully'') False], None))"

text \<open>Lines 38 to 157: the body of the outer \<open>try\<close>.\<close>

definition try_block :: "product \<Rightarrow> env \<Rightarrow> action list \<times> js_exn option" where
  "try_block p e =
     (case truthy (file_url p) of
        None \<Rightarrow> ([], Some (JsError (js ''No file available for download'')))
      | Some url \<Rightarrow>
          first_do (CreateSignedUrl (js ''product-files'') (filename url) 3600)
            (case createSignedUrl e (js ''product-files'') (filename url) 3600 of
               StorageRejects x \<Rightarrow> ([], Some x)
             | StorageResolves data error \<Rightarrow>
                 (case error of
                    Some message \<Rightarrow> ([], Some (JsError (js ''Storage error: '' @ message)))
                  | None \<Rightarrow>
                      (case truthy data of
                         None \<Rightarrow> ([], Some (JsError (js ''Unable to create secure download link'')))
                       | Some signedUrl \<Rightarrow>
                           blob_download p e signedUrl (downloadFilename (title p) url)))))"

text \<open>Lines 158 to 164: the description of the failure toast.\<close>

definition failure_description :: "js_exn \<Rightarrow> jsstring" where
  "failure_description x =
     (case x of
        JsError message \<Rightarrow> message
      | NonError \<Rightarrow> js ''Unable to download the file. Please contact support.'')"

text \<open>
  What follows line 35 (\<open>try\<close>, \<open>catch\<close> and \<open>finally\<close>), and the whole function. The attempt is
  suspended at its \<open>await\<close>s; nothing it reads is written meanwhile, so its actions depend on
  the product and the answers only.
\<close>

definition catch_block :: "js_exn option \<Rightarrow> action list" where
  "catch_block thrown =
     (case thrown of
        None \<Rightarrow> []
      | Some x \<Rightarrow> [Toast (js ''Download Failed'') (failure_description x) True])"

definition startDownload_rest :: "product \<Rightarrow> env \<Rightarrow> action list" where
  "startDownload_rest p e =
     fst (try_block p e) @ catch_block (snd (try_block p e)) @ [SetIsDownloading False]"

definition startDownload :: "product \<Rightarrow> env \<Rightarrow> action list" where
  "startDownload p e = SetIsDownloading True # startDownload_rest p e"

text \<open>
  The outcome an attempt reports is its toast: \<open>Download Failed\<close> with the reason, or one
  of the two success toasts.
\<close>

datatype outcome = Success | Failure jsstring

fun report :: "action \<Rightarrow> outcome option" where
  "report (Toast t d v) = (if t = js ''Download Failed'' then Some (Failure d) else Some Success)"
| "report _ = None"

fun reported :: "action list \<Rightarrow> outcome list" where
  "reported [] = []"
| "reported (a # acts) =
     (case report a of None \<Rightarrow> reported acts | Some r \<Rightarrow> r # reported acts)"

fun is_failure :: "outcome \<Rightarrow> bool" where
  "is_failure (Failure r) = True"
| "is_failure Success = False"

fun storage_call :: "action \<Rightarrow> bool" where
  "storage_call (CreateSignedUrl b n t) = True"
| "storage_call _ = False"

fun strategy_action :: "action \<Rightarrow> bool" where
  "strategy_action (Fetch u) = True"
| "strategy_action (SaveBlob f) = True"
| "strategy_action (Anchor u f) = True"
| "strategy_action (Navigate u) = True"
| "strategy_action _ = False"

text \<open>The signed URLs an attempt hands to a strategy.\<close>

fun used_url :: "action \<Rightarrow> jsstring option" where
  "used_url (Fetch u) = Some u"
| "used_url (Anchor u f) = Some u"
| "used_url (Navigate u) = Some u"
| "used_url _ = None"

fun used_urls :: "action list \<Rightarrow> jsstring list" where
  "used_urls [] = []"
| "used_urls (a # acts) =
     (case used_url a of None \<Rightarrow> used_urls acts | Some u \<Rightarrow> u # used_urls acts)"

section \<open>The component: state, effect and events\<close>

text \<open>
  The three state variables of lines 21 to 23, and what the runtime holds for the
  component: the pending timeout of line 27 with the value of \<open>countdown\<close> its callback
  captured, and whether the component is mounted. \<open>in_flight\<close> counts the calls of
  \<open>startDownload\<close> that have not settled, \<open>auto_started\<close> the calls made by the effect (line
  30), and \<open>log\<close> collects the actions.
\<close>

record component =
  countdown :: int
  isDownloading :: bool
  downloadComplete :: bool
  timer :: "int option"
  mounted :: bool
  in_flight :: nat
  auto_started :: nat
  log :: "action list"

text \<open>A state setter changes a mounted component only.\<close>

fun perform :: "action \<Rightarrow> component \<Rightarrow> component" where
  "perform (SetIsDownloading b) s = (if mounted s then s\<lparr>isDownloading := b\<rparr> else s)"
| "perform (SetDownloadComplete b) s = (if mounted s then s\<lparr>downloadComplete := b\<rparr> else s)"
| "perform _ s = s"

fun perform_all :: "action list \<Rightarrow> component \<Rightarrow> component" where
  "perform_all [] s = s"
| "perform_all (a # acts) s = perform_all acts (perform a s)"

text \<open>
  A call of \<open>startDownload\<close> runs line 35 and is then in flight until its answers arrive
  (\<open>settle\<close>). An attempt on a product without file has no \<open>await\<close> and settles at once in the
  code; the model lets it settle at any later event, which only adds runs.
\<close>

definition begin_attempt :: "component \<Rightarrow> component" where
  "begin_attempt s =
     (perform (SetIsDownloading True) s)
       \<lparr>in_flight := in_flight s + 1, log := log s @ [SetIsDownloading True]\<rparr>"

text \<open>Line 28: the cleanup the effect returned clears the timeout.\<close>

definition cleanup :: "component \<Rightarrow> component" where
  "cleanup s = s\<lparr>timer := None\<rparr>"

text \<open>Lines 26 to 31: the body of the effect.\<close>

definition effect :: "component \<Rightarrow> component" where
  "effect s =
     (if countdown s > 0 \<and> \<not> downloadComplete s then s\<lparr>timer := Some (countdown s)\<rparr>
      else if countdown s = 0 \<and> \<not> downloadComplete s
      then begin_attempt (s\<lparr>auto_started := auto_started s + 1\<rparr>)
      else s)"

text \<open>
  Line 32: after a render of a mounted component in which \<open>countdown\<close> or
  \<open>downloadComplete\<close> differs from the render before, the cleanup runs and then the effect.
\<close>

definition rerender :: "component \<Rightarrow> component \<Rightarrow> component" where
  "rerender old s =
     (if mounted s \<and> (countdown s \<noteq> countdown old \<or> downloadComplete s \<noteq> downloadComplete old)
      then effect (cleanup s) else s)"

text \<open>The first render, and the effect after it.\<close>

definition mount :: component where
  "mount = effect \<lparr>countdown = 30, isDownloading = False, downloadComplete = False,
     timer = None, mounted = True, in_flight = 0, auto_started = 0, log = []\<rparr>"

text \<open>
  Modelled from the spec: the handler behind \<open>onClose\<close> belongs to the parent component,
  whose file is not among the sources. Section 6 has \<open>close()\<close> tear down the timer and
  the in-flight state of the presentation, and section 3 has the countdown state destroyed
  when the presentation is closed: closing unmounts the component, and the runtime then
  runs the cleanup that the effect returned on line 28.
\<close>

definition close :: "component \<Rightarrow> component" where
  "close s = (if mounted s then (cleanup s)\<lparr>mounted := False\<rparr> else s)"

text \<open>
  The events: the pending timeout fires (\<open>Tick\<close>), an attempt in flight settles with the
  answers of the collaborators, the button of lines 232 to 239 is clicked (it is rendered
  only when \<open>downloadComplete\<close> holds), the presentation is closed.
\<close>

datatype event = Tick | Settle env | DownloadAgain | Close

fun step :: "product \<Rightarrow> event \<Rightarrow> component \<Rightarrow> component" where
  "step p Tick s =
     (case timer s of
        None \<Rightarrow> s
      | Some c \<Rightarrow> if mounted s then rerender s (s\<lparr>timer := None, countdown := c - 1\<rparr>) else s)"
| "step p (Settle e) s =
     (if in_flight s = 0 then s
      else rerender s
             (perform_all (startDownload_rest p e)
                (s\<lparr>in_flight := in_flight s - 1, log := log s @ startDownload_rest p e\<rparr>)))"
| "step p DownloadAgain s =
     (if mounted s \<and> downloadComplete s then begin_attempt s else s)"
| "step p Close s = close s"

fun run :: "product \<Rightarrow> event list \<Rightarrow> component \<Rightarrow> component" where
  "run p [] s = s"
| "run p (ev # evs) s = run p evs (step p ev s)"

text \<open>
  What holds of the component after any events: the countdown stays between 0 and 30, the
  effect has called \<open>startDownload\<close> once when the countdown is 0 and not before, and
  while the countdown is positive nothing is in flight, nothing has been done, and the
  timeout is pending exactly when the component is mounted.
\<close>

definition gate_inv :: "component \<Rightarrow> bool" where
  "gate_inv s \<longleftrightarrow>
     0 \<le> countdown s \<and> countdown s \<le> 30 \<and>
     auto_started s = (if countdown s = 0 then 1 else 0) \<and>
     (if countdown s > 0
      then in_flight s = 0 \<and> \<not> downloadComplete s \<and> log s = [] \<and>
           timer s = (if mounted s then Some (countdown s) else None)
      else timer s = None)"

section \<open>Example inputs\<close>

definition example_product :: product where
  "example_product = \<lparr>title = js ''My Cool App!'', file_url = Some (js ''abc123.zip'')\<rparr>"

definition no_file_product :: product where
  "no_file_product = \<lparr>title = js ''My Cool App!'', file_url = None\<rparr>"

text \<open>The storage collaborator issues the given URL and every strategy works.\<close>

definition answers_ok :: "jsstring \<Rightarrow> env" where
  "answers_ok url =
     \<lparr>createSignedUrl = (\<lambda>bucket path ttl. StorageResolves (Some url) None),
      fetch = (\<lambda>u. FetchResolves True), blob_save_throws = False, anchor_throws = False,
      location_throws = None\<rparr>"

text \<open>The response of the fetch has a status that is not ok.\<close>

definition answers_fetch_not_ok :: "jsstring \<Rightarrow> env" where
  "answers_fetch_not_ok url =
     \<lparr>createSignedUrl = (\<lambda>bucket path ttl. StorageResolves (Some url) None),
      fetch = (\<lambda>u. FetchResolves False), blob_save_throws = False, anchor_throws = False,
      location_throws = None\<rparr>"

text \<open>The storage collaborator answers with an error.\<close>

definition answers_storage_error :: "jsstring \<Rightarrow> env" where
  "answers_storage_error message =
     \<lparr>createSignedUrl = (\<lambda>bucket path ttl. StorageResolves None (Some message)),
      fetch = (\<lambda>u. FetchRejects), blob_save_throws = False, anchor_throws = False,
      location_throws = None\<rparr>"

section \<open>The derived filename: code against specification\<close>

lemma js_split_nonempty: "js_split sep s \<noteq> []"
  by (induction s) (auto split: list.splits)

lemma after_last_Cons:
  "after_last sep (c # cs) =
     (if sep \<in> set cs then after_last sep cs else if c = sep then cs else c # cs)"
proof (cases "sep \<in> set cs")
  case True
  then have "takeWhile (\<lambda>x. x \<noteq> sep) (rev cs @ [c]) = takeWhile (\<lambda>x. x \<noteq> sep) (rev cs)"
    by (intro takeWhile_append1[of sep]) auto
  with True show ?thesis by (simp add: after_last_def)
next
  case False
  then have "takeWhile (\<lambda>x. x \<noteq> sep) (rev cs @ [c]) = rev cs @ takeWhile (\<lambda>x. x \<noteq> sep) [c]"
    by (intro takeWhile_append2) auto
  with False show ?thesis by (simp add: after_last_def)
qed

lemma js_split_no_sep: "sep \<notin> set s \<Longrightarrow> js_split sep s = [s]"
  by (induction s) auto

lemma js_split_sep: "sep \<in> set s \<Longrightarrow> tl (js_split sep s) \<noteq> []"
  by (induction s) (auto simp: js_split_nonempty js_split_no_sep split: list.splits)

lemma js_pop_split: "js_pop (js_split sep s) = after_last sep s"
proof (induction s)
  case Nil
  then show ?case by (simp add: after_last_def js_pop_def)
next
  case (Cons c cs)
  show ?case
  proof (cases "sep \<in> set cs")
    case True
    from js_split_sep[OF True] obtain x y ys where "js_split sep cs = x # y # ys"
      by (cases "js_split sep cs"; cases "tl (js_split sep cs)") auto
    with Cons True show ?thesis by (simp add: after_last_Cons js_pop_def)
  next
    case False
    then show ?thesis by (simp add: after_last_Cons js_split_no_sep js_pop_def)
  qed
qed

lemma collapse_space:
  "js_space c \<Longrightarrow> collapse_spec (c # cs) = cu CHR ''_'' # collapse_spec (dropWhile js_space cs)"
  by (induction cs arbitrary: c) auto

lemma collapse_nonspace: "\<not> js_space c \<Longrightarrow> collapse_spec (c # cs) = c # collapse_spec cs"
  by (cases cs) auto

lemma replace_spaces_collapse: "replace_spaces s = collapse_spec s"
  by (induction s rule: replace_spaces.induct) (simp_all add: collapse_space collapse_nonspace)

lemma fileExtension_spec: "fileExtension b = extension_spec b"
  by (simp add: fileExtension_def extension_spec_def js_pop_split)

lemma filename_spec:
  "filename ref = (if basename_spec ref = [] then ref else basename_spec ref)"
  by (simp add: filename_def basename_spec_def js_pop_split)

text \<open>No white space is left after line 48, so the \<open>trim\<close> of line 49 changes nothing.\<close>

lemma underscore_no_space: "\<not> js_space (cu CHR ''_'')"
  by (simp add: js_space_def)

lemma replace_spaces_no_space: "c \<in> set (replace_spaces s) \<Longrightarrow> \<not> js_space c"
proof (induction s rule: replace_spaces.induct)
  case 1
  then show ?case by simp
next
  case (2 d ds)
  show ?case
  proof (cases "js_space d")
    case True
    with "2.prems" have "c = cu CHR ''_'' \<or> c \<in> set (replace_spaces (dropWhile js_space ds))"
      by simp
    with True "2.IH"(1) underscore_no_space show ?thesis by blast
  next
    case False
    with "2.prems" have "c = d \<or> c \<in> set (replace_spaces ds)"
      by simp
    with False "2.IH"(2) show ?thesis by blast
  qed
qed

lemma dropWhile_none: "(\<And>c. c \<in> set xs \<Longrightarrow> \<not> P c) \<Longrightarrow> dropWhile P xs = xs"
  by (cases xs) auto

lemma js_trim_no_space:
  assumes "\<And>c. c \<in> set s \<Longrightarrow> \<not> js_space c"
  shows "js_trim s = s"
proof -
  have "dropWhile js_space s = s"
    using assms by (rule dropWhile_none)
  moreover have "dropWhile js_space (rev s) = rev s"
    by (rule dropWhile_none) (simp add: assms)
  ultimately show ?thesis by (simp add: js_trim_def)
qed

lemma sanitizedTitle_untrimmed: "sanitizedTitle t = replace_spaces (replace_special t)"
  unfolding sanitizedTitle_def by (rule js_trim_no_space) (rule replace_spaces_no_space)

text \<open>
  The code and the specification agree on a title that has no white space at its ends
  once the other characters are removed.
\<close>

lemma sanitizedTitle_spec:
  assumes "js_trim (strip_spec t) = strip_spec t"
  shows "sanitizedTitle t = title_spec t"
proof -
  have "sanitizedTitle t = collapse_spec (strip_spec t)"
    by (simp add: sanitizedTitle_untrimmed replace_special_def strip_spec_def
        replace_spaces_collapse)
  with assms show ?thesis by (simp add: title_spec_def)
qed

lemmas filename_eval = downloadFilename_def sanitizedTitle_def fileExtension_def filename_def
  js_pop_def js_trim_def replace_special_def title_char_def js_space_def js_def

lemmas spec_eval = derived_filename_spec_def title_spec_def extension_spec_def basename_spec_def
  after_last_def js_trim_def strip_spec_def title_char_def js_space_def js_def

text \<open>The specification's derivation at the two inputs of its section 8.\<close>

lemma derived_filename_spec_examples:
  "derived_filename_spec (js ''My Cool App!'') (js ''abc123.zip'') = js ''My_Cool_App.zip''"
  "derived_filename_spec (js ''  multi   space  name'') (js ''x'') = js ''multi_space_name.zip''"
  by (simp_all add: spec_eval)

text \<open>
  Claim C2, as amended. For every title that has no white space at its ends once every
  code unit outside \<open>[A-Za-z0-9\s\-_]\<close> is removed, and for every file reference, the
  filename of line 51 is that title with the runs of white space collapsed to one
  underscore each, followed by the extension: the dot and what follows the last dot of the
  basename of the reference, or \<open>.zip\<close> when there is no dot. When the reference ends in
  \<open>/\<close> its basename is empty and line 40 takes the whole reference in its place. So for
  such a title and a reference with a basename that is not empty the filename is the
  derivation of the specification; the title \<open>My Cool App!\<close> with the reference
  \<open>abc123.zip\<close> gives \<open>My_Cool_App.zip\<close>. Nothing is said of a title with white space at
  its ends.
\<close>

theorem derived_filename_whole_ref:
  "js_trim (strip_spec t) = strip_spec t \<Longrightarrow>
     downloadFilename t ref =
       title_spec t @ extension_spec (if basename_spec ref = [] then ref else basename_spec ref) \<and>
     (basename_spec ref \<noteq> [] \<longrightarrow> downloadFilename t ref = derived_filename_spec t ref) \<and>
     downloadFilename (js ''My Cool App!'') (js ''abc123.zip'') = js ''My_Cool_App.zip''"
proof -
  assume trimmed: "js_trim (strip_spec t) = strip_spec t"
  have "downloadFilename (js ''My Cool App!'') (js ''abc123.zip'') = js ''My_Cool_App.zip''"
    by (simp add: filename_eval)
  then show ?thesis
    by (simp add: downloadFilename_def derived_filename_spec_def sanitizedTitle_spec[OF trimmed]
        fileExtension_spec filename_spec)
qed

text \<open>
  At the title \<open>My Cool App!\<close> and the reference \<open>files/abc123.zip\<close>, whose basename is
  \<open>abc123.zip\<close>.
\<close>

theorem derived_filename_whole_ref_witness:
  "js_trim (strip_spec (js ''My Cool App!'')) = strip_spec (js ''My Cool App!'') \<and>
   basename_spec (js ''files/abc123.zip'') \<noteq> [] \<and>
   downloadFilename (js ''My Cool App!'') (js ''files/abc123.zip'') =
     derived_filename_spec (js ''My Cool App!'') (js ''files/abc123.zip'') \<and>
   derived_filename_spec (js ''My Cool App!'') (js ''files/abc123.zip'') = js ''My_Cool_App.zip''"
proof -
  have tr: "js_trim (strip_spec (js ''My Cool App!'')) = strip_spec (js ''My Cool App!'')"
    by (simp add: spec_eval)
  have ne: "basename_spec (js ''files/abc123.zip'') \<noteq> []"
    by (simp add: spec_eval)
  have "derived_filename_spec (js ''My Cool App!'') (js ''files/abc123.zip'') = js ''My_Cool_App.zip''"
    by (simp add: spec_eval)
  moreover from ne derived_filename_whole_ref[OF tr, of "js ''files/abc123.zip''"]
  have "downloadFilename (js ''My Cool App!'') (js ''files/abc123.zip'') =
     derived_filename_spec (js ''My Cool App!'') (js ''files/abc123.zip'')"
    by blast
  ultimately show ?thesis using tr ne by blast
qed

text \<open>
  Without the amendment the statement fails at a reference that ends in \<open>/\<close> and has a
  dot: for \<open>v1.0/\<close> the basename is empty, the specification's words give the extension
  \<open>.zip\<close>, and the code, which keeps the whole reference, gives \<open>.0/\<close>. The title has no
  white space at its ends.
\<close>

theorem derived_filename_counterexample:
  "js_trim (strip_spec (js ''My Cool App!'')) = strip_spec (js ''My Cool App!'') \<and>
   downloadFilename (js ''My Cool App!'') (js ''v1.0/'') = js ''My_Cool_App.0/'' \<and>
   derived_filename_spec (js ''My Cool App!'') (js ''v1.0/'') = js ''My_Cool_App.zip'' \<and>
   downloadFilename (js ''My Cool App!'') (js ''v1.0/'') \<noteq>
     derived_filename_spec (js ''My Cool App!'') (js ''v1.0/'')"
proof -
  have t: "js_trim (strip_spec (js ''My Cool App!'')) = strip_spec (js ''My Cool App!'')"
    by (simp add: spec_eval)
  have a: "downloadFilename (js ''My Cool App!'') (js ''v1.0/'') = js ''My_Cool_App.0/''"
    by (simp add: filename_eval)
  have b: "derived_filename_spec (js ''My Cool App!'') (js ''v1.0/'') = js ''My_Cool_App.zip''"
    by (simp add: spec_eval)
  have c: "js ''My_Cool_App.0/'' \<noteq> js ''My_Cool_App.zip''"
    by (simp add: js_def)
  from a b c have "downloadFilename (js ''My Cool App!'') (js ''v1.0/'') \<noteq>
     derived_filename_spec (js ''My Cool App!'') (js ''v1.0/'')"
    by simp
  with t a b show ?thesis by blast
qed

text \<open>
  Claim C3 says that the title \<open>  multi   space  name\<close> with the reference \<open>x\<close> gives
  \<open>multi_space_name.zip\<close>. The code gives \<open>_multi_space_name.zip\<close>: the leading run of
  spaces has become an underscore on line 48 before \<open>trim\<close> runs on line 49, where no white
  space is left to remove (\<open>sanitizedTitle_untrimmed\<close>). The default extension is applied
  as the claim says.
\<close>

theorem multi_space_name_leading_underscore:
  "downloadFilename (js ''  multi   space  name'') (js ''x'') = js ''_multi_space_name.zip'' \<and>
   downloadFilename (js ''  multi   space  name'') (js ''x'') \<noteq> js ''multi_space_name.zip''"
proof -
  have a: "downloadFilename (js ''  multi   space  name'') (js ''x'') = js ''_multi_space_name.zip''"
    by (simp add: filename_eval)
  have "js ''_multi_space_name.zip'' \<noteq> js ''multi_space_name.zip''"
    by (simp add: js_def)
  with a show ?thesis by simp
qed

section \<open>One attempt: what it does and what it reports\<close>

lemma perform_fields [simp]:
  "countdown (perform a s) = countdown s"
  "timer (perform a s) = timer s"
  "mounted (perform a s) = mounted s"
  "in_flight (perform a s) = in_flight s"
  "auto_started (perform a s) = auto_started s"
  "log (perform a s) = log s"
  by (cases a; simp)+

lemma perform_all_fields [simp]:
  "countdown (perform_all acts s) = countdown s"
  "timer (perform_all acts s) = timer s"
  "mounted (perform_all acts s) = mounted s"
  "in_flight (perform_all acts s) = in_flight s"
  "auto_started (perform_all acts s) = auto_started s"
  "log (perform_all acts s) = log s"
  by (induction acts arbitrary: s; simp)+

lemma perform_all_append [simp]:
  "perform_all (xs @ ys) s = perform_all ys (perform_all xs s)"
  by (induction xs arbitrary: s) simp_all

lemma reported_append [simp]: "reported (xs @ ys) = reported xs @ reported ys"
  by (induction xs) (simp_all split: option.splits)

lemma toast_titles [simp]:
  "js ''Download Started'' \<noteq> js ''Download Failed''"
  "js ''Download Complete'' \<noteq> js ''Download Failed''"
  by (simp_all add: js_def)

text \<open>A block reports success exactly when it does not throw, and sets the flag then only.\<close>

lemma reported_direct:
  "reported (fst (direct_download p e u f)) =
     (if snd (direct_download p e u f) = None then [Success] else [])"
  by (simp add: direct_download_def started_toast_def split: option.splits)

lemma reported_blob:
  "reported (fst (blob_download p e u f)) =
     (if snd (blob_download p e u f) = None then [Success] else [])"
  by (simp add: blob_download_def first_do_def reported_direct split: fetch_result.splits)

lemma reported_try:
  "reported (fst (try_block p e)) = (if snd (try_block p e) = None then [Success] else [])"
  by (simp add: try_block_def first_do_def reported_blob split: option.splits storage_result.splits)

lemma reported_startDownload:
  "reported (startDownload p e) =
     (case snd (try_block p e) of
        None \<Rightarrow> [Success]
      | Some x \<Rightarrow> [Failure (failure_description x)])"
  by (simp add: startDownload_def startDownload_rest_def catch_block_def reported_try
      split: option.splits)

lemma complete_direct:
  "SetDownloadComplete b \<in> set (fst (direct_download p e u f)) \<longleftrightarrow>
     b \<and> snd (direct_download p e u f) = None"
  by (auto simp: direct_download_def started_toast_def split: option.splits)

lemma complete_blob:
  "SetDownloadComplete b \<in> set (fst (blob_download p e u f)) \<longleftrightarrow>
     b \<and> snd (blob_download p e u f) = None"
  by (auto simp: blob_download_def first_do_def complete_direct split: fetch_result.splits)

lemma complete_try:
  "SetDownloadComplete b \<in> set (fst (try_block p e)) \<longleftrightarrow> b \<and> snd (try_block p e) = None"
  by (auto simp: try_block_def first_do_def complete_blob split: option.splits storage_result.splits)

lemma complete_rest:
  "SetDownloadComplete b \<in> set (startDownload_rest p e) \<longleftrightarrow> b \<and> snd (try_block p e) = None"
  by (auto simp: startDownload_rest_def catch_block_def complete_try split: option.splits)

lemma complete_startDownload:
  "SetDownloadComplete b \<in> set (startDownload p e) \<longleftrightarrow> b \<and> snd (try_block p e) = None"
  by (simp add: startDownload_def complete_rest)

lemma perform_all_no_complete:
  "(\<And>b. SetDownloadComplete b \<notin> set acts) \<Longrightarrow>
   downloadComplete (perform_all acts s) = downloadComplete s"
proof (induction acts arbitrary: s)
  case Nil
  then show ?case by simp
next
  case (Cons a acts)
  from Cons.prems have "downloadComplete (perform a s) = downloadComplete s"
    by (cases a) auto
  moreover from Cons have "downloadComplete (perform_all acts (perform a s)) = downloadComplete (perform a s)"
    by simp
  ultimately show ?case by simp
qed

lemma perform_all_keeps_complete:
  "SetDownloadComplete False \<notin> set acts \<Longrightarrow> downloadComplete s \<Longrightarrow>
   downloadComplete (perform_all acts s)"
proof (induction acts arbitrary: s)
  case Nil
  then show ?case by simp
next
  case (Cons a acts)
  from Cons.prems have "downloadComplete (perform a s)"
    by (cases a) auto
  with Cons show ?case by simp
qed

lemma settle_keeps_complete:
  "downloadComplete s \<Longrightarrow> downloadComplete (perform_all (startDownload_rest p e) s)"
  by (rule perform_all_keeps_complete) (simp_all add: complete_rest)

lemma used_urls_append [simp]: "used_urls (xs @ ys) = used_urls xs @ used_urls ys"
  by (induction xs) (simp_all split: option.splits)

lemma storage_call_direct: "filter storage_call (fst (direct_download p e u f)) = []"
  by (simp add: direct_download_def started_toast_def split: option.splits)

lemma storage_call_blob: "filter storage_call (fst (blob_download p e u f)) = []"
  by (simp add: blob_download_def first_do_def storage_call_direct split: fetch_result.splits)

lemma storage_call_try:
  "truthy (file_url p) = Some url \<Longrightarrow>
   filter storage_call (fst (try_block p e)) =
     [CreateSignedUrl (js ''product-files'') (filename url) 3600]"
  by (simp add: try_block_def first_do_def storage_call_blob
      split: storage_result.splits option.splits)

lemma storage_call_startDownload:
  "truthy (file_url p) = Some url \<Longrightarrow>
   filter storage_call (startDownload p e) =
     [CreateSignedUrl (js ''product-files'') (filename url) 3600]"
  by (simp add: startDownload_def startDownload_rest_def catch_block_def storage_call_try
      split: option.splits)

lemma used_urls_direct: "set (used_urls (fst (direct_download p e u f))) = {u}"
  by (simp add: direct_download_def started_toast_def split: option.splits)

lemma used_urls_blob: "set (used_urls (fst (blob_download p e u f))) = {u}"
  by (simp add: blob_download_def first_do_def used_urls_direct split: fetch_result.splits)

lemma truthy_Some: "truthy v = Some u \<Longrightarrow> v = Some u"
  by (auto simp: truthy_def split: option.splits if_splits)

lemma used_urls_try:
  "truthy (file_url p) = Some url \<Longrightarrow> u \<in> set (used_urls (fst (try_block p e))) \<Longrightarrow>
   createSignedUrl e (js ''product-files'') (filename url) 3600 = StorageResolves (Some u) None"
  by (auto simp: try_block_def first_do_def used_urls_blob dest: truthy_Some
      split: storage_result.splits option.splits)

lemma used_urls_startDownload:
  "truthy (file_url p) = Some url \<Longrightarrow> u \<in> set (used_urls (startDownload p e)) \<Longrightarrow>
   createSignedUrl e (js ''product-files'') (filename url) 3600 = StorageResolves (Some u) None"
  by (auto simp: startDownload_def startDownload_rest_def catch_block_def
      dest: used_urls_try split: option.splits)

section \<open>The example inputs, evaluated\<close>

lemma example_filename: "filename (js ''abc123.zip'') = js ''abc123.zip''"
  by (simp add: filename_def js_pop_def js_def)

lemma example_downloadFilename:
  "downloadFilename (js ''My Cool App!'') (js ''abc123.zip'') = js ''My_Cool_App.zip''"
  by (simp add: filename_eval)

lemma example_truthy: "truthy (file_url example_product) = Some (js ''abc123.zip'')"
  by (simp add: example_product_def truthy_def js_def)

lemma example_title: "title example_product = js ''My Cool App!''"
  by (simp add: example_product_def)

lemma truthy_js_url: "truthy (Some (js ''https://storage.example/signed/1'')) = Some (js ''https://storage.example/signed/1'')"
  "truthy (Some (js ''https://storage.example/signed/2'')) = Some (js ''https://storage.example/signed/2'')"
  by (simp_all add: truthy_def js_def)

lemma example_attempt_ok:
  "startDownload example_product (answers_ok (js ''https://storage.example/signed/1'')) =
     [SetIsDownloading True,
      CreateSignedUrl (js ''product-files'') (js ''abc123.zip'') 3600,
      Fetch (js ''https://storage.example/signed/1''),
      SaveBlob (js ''My_Cool_App.zip''),
      SetDownloadComplete True,
      Toast (js ''Download Complete'') (js ''My Cool App! has been downloaded successfully'') False,
      SetIsDownloading False]"
  "startDownload example_product (answers_ok (js ''https://storage.example/signed/2'')) =
     [SetIsDownloading True,
      CreateSignedUrl (js ''product-files'') (js ''abc123.zip'') 3600,
      Fetch (js ''https://storage.example/signed/2''),
      SaveBlob (js ''My_Cool_App.zip''),
      SetDownloadComplete True,
      Toast (js ''Download Complete'') (js ''My Cool App! has been downloaded successfully'') False,
      SetIsDownloading False]"
  by (simp_all add: startDownload_def startDownload_rest_def catch_block_def try_block_def
      first_do_def blob_download_def example_truthy truthy_js_url example_filename
      example_downloadFilename example_title answers_ok_def)
    (simp_all add: js_def)

lemma example_attempt_storage_error:
  "startDownload example_product (answers_storage_error (js ''Object not found'')) =
     [SetIsDownloading True,
      CreateSignedUrl (js ''product-files'') (js ''abc123.zip'') 3600,
      Toast (js ''Download Failed'') (js ''Storage error: Object not found'') True,
      SetIsDownloading False]"
  by (simp add: startDownload_def startDownload_rest_def catch_block_def try_block_def
      first_do_def example_truthy example_filename answers_storage_error_def
      failure_description_def)
    (simp add: js_def)

section \<open>Claims about one attempt\<close>

text \<open>
  Claim C5. For every product whose file reference is absent (or empty, which line 38
  treats alike), an attempt does nothing between its two setters but show the failure
  toast with the reason \<open>No file available for download\<close>: the storage collaborator is
  not called and no strategy of the cascade is entered.
\<close>

theorem missing_file_fails_at_once:
  "truthy (file_url p) = None \<Longrightarrow>
     startDownload p e =
       [SetIsDownloading True,
        Toast (js ''Download Failed'') (js ''No file available for download'') True,
        SetIsDownloading False] \<and>
     reported (startDownload p e) = [Failure (js ''No file available for download'')] \<and>
     filter storage_call (startDownload p e) = [] \<and>
     filter strategy_action (startDownload p e) = []"
  by (simp add: startDownload_def startDownload_rest_def catch_block_def try_block_def
      failure_description_def)

text \<open>At a product without \<open>file_url\<close>.\<close>

theorem missing_file_fails_at_once_witness:
  "truthy (file_url no_file_product) = None \<and>
   startDownload no_file_product (answers_ok (js ''https://storage.example/signed/1'')) =
     [SetIsDownloading True,
      Toast (js ''Download Failed'') (js ''No file available for download'') True,
      SetIsDownloading False] \<and>
   filter storage_call
     (startDownload no_file_product (answers_ok (js ''https://storage.example/signed/1''))) = []"
proof -
  have h: "truthy (file_url no_file_product) = None"
    by (simp add: no_file_product_def truthy_def)
  from missing_file_fails_at_once[OF h, of "answers_ok (js ''https://storage.example/signed/1'')"] h
  show ?thesis by simp
qed

text \<open>
  Claim C7. When the storage collaborator answers the request for a signed URL with an
  error, the attempt ends there: after the call it only shows the failure toast, whose
  reason is the collaborator's message behind the prefix \<open>Storage error: \<close>, and no
  strategy of the cascade is entered.
\<close>

theorem storage_error_is_terminal:
  "truthy (file_url p) = Some url \<Longrightarrow>
   createSignedUrl e (js ''product-files'') (filename url) 3600 =
     StorageResolves data (Some message) \<Longrightarrow>
     startDownload p e =
       [SetIsDownloading True,
        CreateSignedUrl (js ''product-files'') (filename url) 3600,
        Toast (js ''Download Failed'') (js ''Storage error: '' @ message) True,
        SetIsDownloading False] \<and>
     reported (startDownload p e) = [Failure (js ''Storage error: '' @ message)] \<and>
     filter strategy_action (startDownload p e) = []"
  by (simp add: startDownload_def startDownload_rest_def catch_block_def try_block_def
      first_do_def failure_description_def)

text \<open>At the error message \<open>Object not found\<close>.\<close>

theorem storage_error_is_terminal_witness:
  "truthy (file_url example_product) = Some (js ''abc123.zip'') \<and>
   createSignedUrl (answers_storage_error (js ''Object not found''))
     (js ''product-files'') (filename (js ''abc123.zip'')) 3600 =
     StorageResolves None (Some (js ''Object not found'')) \<and>
   startDownload example_product (answers_storage_error (js ''Object not found'')) =
     [SetIsDownloading True,
      CreateSignedUrl (js ''product-files'') (js ''abc123.zip'') 3600,
      Toast (js ''Download Failed'') (js ''Storage error: Object not found'') True,
      SetIsDownloading False]"
proof -
  have h1: "truthy (file_url example_product) = Some (js ''abc123.zip'')"
    by (simp add: example_product_def truthy_def js_def)
  have h2: "createSignedUrl (answers_storage_error (js ''Object not found''))
     (js ''product-files'') (filename (js ''abc123.zip'')) 3600 =
     StorageResolves None (Some (js ''Object not found''))"
    by (simp add: answers_storage_error_def)
  have f: "filename (js ''abc123.zip'') = js ''abc123.zip''"
    by (simp add: filename_def js_pop_def js_def)
  have m: "js ''Storage error: '' @ js ''Object not found'' = js ''Storage error: Object not found''"
    by (simp add: js_def)
  from storage_error_is_terminal[OF h1 h2] h1 h2 f m show ?thesis by simp
qed

text \<open>
  Claim C6. When a signed URL has been issued and the buffered fetch fails (the fetch
  rejects, the response is not ok, or reading and saving the blob throws), the anchor
  strategy comes next, with the signed URL the fetch was given and the filename derived for
  the attempt. If the anchor strategy does not throw, the attempt sets the completed flag,
  shows the \<open>Download Started\<close> toast and reports success.
\<close>

theorem fetch_failure_falls_back_to_anchor:
  "truthy (file_url p) = Some url \<Longrightarrow>
   createSignedUrl e (js ''product-files'') (filename url) 3600 = StorageResolves data None \<Longrightarrow>
   truthy data = Some signedUrl \<Longrightarrow>
   fetch e signedUrl = FetchRejects \<or> fetch e signedUrl = FetchResolves False \<or>
     blob_save_throws e \<Longrightarrow>
     take 4 (startDownload p e) =
       [SetIsDownloading True,
        CreateSignedUrl (js ''product-files'') (filename url) 3600,
        Fetch signedUrl,
        Anchor signedUrl (downloadFilename (title p) url)] \<and>
     (\<not> anchor_throws e \<longrightarrow>
        startDownload p e =
          [SetIsDownloading True,
           CreateSignedUrl (js ''product-files'') (filename url) 3600,
           Fetch signedUrl,
           Anchor signedUrl (downloadFilename (title p) url),
           SetDownloadComplete True,
           Toast (js ''Download Started'') (title p @ js '' download has been initiated'') False,
           SetIsDownloading False] \<and>
        reported (startDownload p e) = [Success])"
  by (auto simp: startDownload_def startDownload_rest_def catch_block_def try_block_def
      first_do_def blob_download_def direct_download_def started_toast_def
      split: fetch_result.splits option.splits)

text \<open>At a response that is not ok, with an anchor strategy that does not throw.\<close>

theorem fetch_failure_falls_back_to_anchor_witness:
  "truthy (file_url example_product) = Some (js ''abc123.zip'') \<and>
   createSignedUrl (answers_fetch_not_ok (js ''https://storage.example/signed/1''))
     (js ''product-files'') (filename (js ''abc123.zip'')) 3600 =
     StorageResolves (Some (js ''https://storage.example/signed/1'')) None \<and>
   truthy (Some (js ''https://storage.example/signed/1'')) =
     Some (js ''https://storage.example/signed/1'') \<and>
   fetch (answers_fetch_not_ok (js ''https://storage.example/signed/1''))
     (js ''https://storage.example/signed/1'') = FetchResolves False \<and>
   \<not> anchor_throws (answers_fetch_not_ok (js ''https://storage.example/signed/1'')) \<and>
   startDownload example_product (answers_fetch_not_ok (js ''https://storage.example/signed/1'')) =
     [SetIsDownloading True,
      CreateSignedUrl (js ''product-files'') (js ''abc123.zip'') 3600,
      Fetch (js ''https://storage.example/signed/1''),
      Anchor (js ''https://storage.example/signed/1'') (js ''My_Cool_App.zip''),
      SetDownloadComplete True,
      Toast (js ''Download Started'') (js ''My Cool App! download has been initiated'') False,
      SetIsDownloading False] \<and>
   reported
     (startDownload example_product (answers_fetch_not_ok (js ''https://storage.example/signed/1''))) =
     [Success]"
proof -
  let ?e = "answers_fetch_not_ok (js ''https://storage.example/signed/1'')"
  have h2: "createSignedUrl ?e (js ''product-files'') (filename (js ''abc123.zip'')) 3600 =
     StorageResolves (Some (js ''https://storage.example/signed/1'')) None"
    by (simp add: answers_fetch_not_ok_def)
  have h4: "fetch ?e (js ''https://storage.example/signed/1'') = FetchResolves False"
    by (simp add: answers_fetch_not_ok_def)
  then have h4': "fetch ?e (js ''https://storage.example/signed/1'') = FetchRejects \<or>
     fetch ?e (js ''https://storage.example/signed/1'') = FetchResolves False \<or> blob_save_throws ?e"
    by simp
  have h5: "\<not> anchor_throws ?e"
    by (simp add: answers_fetch_not_ok_def)
  have t: "js ''My Cool App!'' @ js '' download has been initiated'' =
      js ''My Cool App! download has been initiated''"
    by (simp add: js_def)
  note th = fetch_failure_falls_back_to_anchor[OF example_truthy h2 truthy_js_url(1) h4',
      unfolded example_filename example_downloadFilename example_title t]
  from th h5 have "startDownload example_product ?e =
     [SetIsDownloading True,
      CreateSignedUrl (js ''product-files'') (js ''abc123.zip'') 3600,
      Fetch (js ''https://storage.example/signed/1''),
      Anchor (js ''https://storage.example/signed/1'') (js ''My_Cool_App.zip''),
      SetDownloadComplete True,
      Toast (js ''Download Started'') (js ''My Cool App! download has been initiated'') False,
      SetIsDownloading False]"
    by blast
  moreover from th h5 have "reported (startDownload example_product ?e) = [Success]"
    by blast
  ultimately show ?thesis
    using example_truthy h2 truthy_js_url(1) h4 h5 by blast
qed

section \<open>The component: steps and invariant\<close>

lemma begin_attempt_fields [simp]:
  "countdown (begin_attempt s) = countdown s"
  "downloadComplete (begin_attempt s) = downloadComplete s"
  "timer (begin_attempt s) = timer s"
  "mounted (begin_attempt s) = mounted s"
  "in_flight (begin_attempt s) = in_flight s + 1"
  "auto_started (begin_attempt s) = auto_started s"
  "log (begin_attempt s) = log s @ [SetIsDownloading True]"
  "isDownloading (begin_attempt s) = (if mounted s then True else isDownloading s)"
  by (simp_all add: begin_attempt_def)

lemma effect_fields [simp]:
  "countdown (effect s) = countdown s"
  "downloadComplete (effect s) = downloadComplete s"
  "mounted (effect s) = mounted s"
  by (simp_all add: effect_def)

lemma rerender_fields [simp]:
  "countdown (rerender old s) = countdown s"
  "downloadComplete (rerender old s) = downloadComplete s"
  "mounted (rerender old s) = mounted s"
  by (simp_all add: rerender_def cleanup_def)

lemma run_append: "run p (xs @ ys) s = run p ys (run p xs s)"
  by (induction xs arbitrary: s) simp_all

text \<open>Settling never starts an attempt: the effect runs again only when the flag has become true.\<close>

lemma settle_rerender:
  assumes "s' = perform_all (startDownload_rest p e) s0"
    and "downloadComplete s0 = downloadComplete s" "countdown s0 = countdown s"
  shows "rerender s s' = (if mounted s' \<and> downloadComplete s' \<noteq> downloadComplete s then cleanup s' else s')"
proof -
  have "downloadComplete s \<Longrightarrow> downloadComplete s'"
    using assms settle_keeps_complete[of s0 p e] by simp
  then have "downloadComplete s' \<noteq> downloadComplete s \<Longrightarrow> downloadComplete s'"
    by blast
  then show ?thesis
    using assms by (auto simp: rerender_def effect_def cleanup_def)
qed

lemma step_settle:
  "0 < in_flight s \<Longrightarrow>
   step p (Settle e) s =
     (let s' = perform_all (startDownload_rest p e)
                 (s\<lparr>in_flight := in_flight s - 1, log := log s @ startDownload_rest p e\<rparr>)
      in if mounted s' \<and> downloadComplete s' \<noteq> downloadComplete s then cleanup s' else s')"
  by (simp add: Let_def settle_rerender[where ?s0.0 = "s\<lparr>in_flight := in_flight s - 1, log := log s @ startDownload_rest p e\<rparr>"])

lemma perform_update:
  "perform a (s\<lparr>in_flight := n, log := l\<rparr>) = (perform a s)\<lparr>in_flight := n, log := l\<rparr>"
  by (cases a) simp_all

lemma perform_all_update:
  "perform_all acts (s\<lparr>in_flight := n, log := l\<rparr>) =
     (perform_all acts s)\<lparr>in_flight := n, log := l\<rparr>"
  by (induction acts arbitrary: s) (simp_all add: perform_update)

lemma step_settle_fields:
  assumes "0 < in_flight s"
  shows "log (step p (Settle e) s) = log s @ startDownload_rest p e"
    and "in_flight (step p (Settle e) s) = in_flight s - 1"
    and "auto_started (step p (Settle e) s) = auto_started s"
    and "mounted (step p (Settle e) s) = mounted s"
    and "countdown (step p (Settle e) s) = countdown s"
    and "downloadComplete (step p (Settle e) s) =
           downloadComplete (perform_all (startDownload_rest p e) s)"
    and "isDownloading (step p (Settle e) s) =
           isDownloading (perform_all (startDownload_rest p e) s)"
  using assms
  by (simp_all add: step_settle Let_def cleanup_def perform_all_update del: step.simps)

lemma isDownloading_after_rest:
  "mounted s \<Longrightarrow> \<not> isDownloading (perform_all (startDownload_rest p e) s)"
  by (simp add: startDownload_rest_def)

lemma startDownload_rest_tl: "startDownload_rest p e = tl (startDownload p e)"
  by (simp add: startDownload_def)

lemma gate_inv_mount: "gate_inv mount"
  by (simp add: gate_inv_def mount_def effect_def)

lemma gate_inv_step: 
  assumes "gate_inv s"
  shows "gate_inv (step p ev s)"
proof (cases ev)
  case Tick
  with assms show ?thesis
    by (auto simp: gate_inv_def rerender_def effect_def cleanup_def begin_attempt_def
        split: option.splits if_splits)
next
  case (Settle e)
  show ?thesis
  proof (cases "0 < in_flight s")
    case True
    with assms have "countdown s = 0"
      by (auto simp: gate_inv_def split: if_splits)
    with assms True show ?thesis
      unfolding Settle gate_inv_def
      by (simp add: step_settle_fields step_settle Let_def cleanup_def del: step.simps)
  next
    case False
    with assms Settle show ?thesis by simp
  qed
next
  case DownloadAgain
  with assms show ?thesis
    by (auto simp: gate_inv_def split: if_splits)
next
  case Close
  with assms show ?thesis
    by (auto simp: gate_inv_def close_def cleanup_def split: if_splits)
qed

lemma gate_inv_run: "gate_inv s \<Longrightarrow> gate_inv (run p evs s)"
  by (induction evs arbitrary: s) (simp_all add: gate_inv_step)




lemma closed_step:
  "timer c = None \<Longrightarrow> \<not> mounted c \<Longrightarrow> in_flight c = 0 \<Longrightarrow> step p ev c = c"
  by (cases ev) (simp_all add: close_def)

lemma closed_run: "timer c = None \<Longrightarrow> \<not> mounted c \<Longrightarrow> in_flight c = 0 \<Longrightarrow> run p evs c = c"
  by (induction evs) (simp_all add: closed_step del: step.simps)

lemma ticks_3:
  "run p (replicate 3 Tick) mount =
     \<lparr>countdown = 27, isDownloading = False, downloadComplete = False, timer = Some 27,
      mounted = True, in_flight = 0, auto_started = 0, log = []\<rparr>"
  by (simp add: mount_def effect_def rerender_def cleanup_def begin_attempt_def numeral_eq_Suc)


lemma ticks_30:
  "run p (replicate 30 Tick) mount =
     \<lparr>countdown = 0, isDownloading = True, downloadComplete = False, timer = None,
      mounted = True, in_flight = 1, auto_started = 1, log = [SetIsDownloading True]\<rparr>"
  by (simp add: mount_def effect_def rerender_def cleanup_def begin_attempt_def numeral_eq_Suc)

lemma first_download:
  "run example_product
     (replicate 30 Tick @ [Settle (answers_ok (js ''https://storage.example/signed/1''))]) mount =
   \<lparr>countdown = 0, isDownloading = False, downloadComplete = True, timer = None,
    mounted = True, in_flight = 0, auto_started = 1,
    log = startDownload example_product (answers_ok (js ''https://storage.example/signed/1''))\<rparr>"
  by (simp add: run_append ticks_30 startDownload_rest_tl example_attempt_ok rerender_def
      effect_def cleanup_def)

section \<open>Claims about the component\<close>



text \<open>
  Claim C9. When a presentation is closed while its countdown is positive, the timeout
  that was pending is cleared, and whatever events follow leave the component as the close
  left it: the effect never calls \<open>startDownload\<close>, and no action of an attempt is ever
  performed.
\<close>

theorem close_cancels_trigger:
  "s = run p evs mount \<Longrightarrow> mounted s \<Longrightarrow> 0 < countdown s \<Longrightarrow>
     timer s = Some (countdown s) \<and>
     timer (step p Close s) = None \<and>
     run p later (step p Close s) = step p Close s \<and>
     auto_started (run p later (step p Close s)) = 0 \<and>
     log (run p later (step p Close s)) = []"
proof -
  assume s: "s = run p evs mount" and m: "mounted s" and c: "0 < countdown s"
  from s have inv: "gate_inv s"
    by (simp add: gate_inv_run gate_inv_mount)
  with m c have f: "timer s = Some (countdown s)" "in_flight s = 0" "auto_started s = 0" "log s = []"
    by (auto simp: gate_inv_def split: if_splits)
  let ?c = "step p Close s"
  from m f have cl: "timer ?c = None" "\<not> mounted ?c" "in_flight ?c = 0" "auto_started ?c = 0" "log ?c = []"
    by (simp_all add: close_def cleanup_def)
  from closed_run[OF cl(1,2,3), of p later] have "run p later ?c = ?c" .
  with f cl show ?thesis by simp
qed

text \<open>At a presentation closed after 3 ticks; 30 ticks, a click and an answer follow.\<close>

theorem close_cancels_trigger_witness:
  "mounted (run example_product (replicate 3 Tick) mount) \<and>
   0 < countdown (run example_product (replicate 3 Tick) mount) \<and>
   timer (run example_product (replicate 3 Tick) mount) = Some 27 \<and>
   timer (step example_product Close (run example_product (replicate 3 Tick) mount)) = None \<and>
   auto_started
     (run example_product
        (replicate 30 Tick @ [DownloadAgain, Settle (answers_ok (js ''https://storage.example/signed/1''))])
        (step example_product Close (run example_product (replicate 3 Tick) mount))) = 0 \<and>
   log
     (run example_product
        (replicate 30 Tick @ [DownloadAgain, Settle (answers_ok (js ''https://storage.example/signed/1''))])
        (step example_product Close (run example_product (replicate 3 Tick) mount))) = []"
proof -
  let ?s = "run example_product (replicate 3 Tick) mount"
  have h: "mounted ?s" "0 < countdown ?s" "countdown ?s = 27"
    by (simp_all add: ticks_3)
  note th = close_cancels_trigger[OF refl h(1,2),
      of "replicate 30 Tick @ [DownloadAgain, Settle (answers_ok (js ''https://storage.example/signed/1''))]",
      unfolded h(3)]
  from th h(1,2) show ?thesis by blast
qed

text \<open>
  Claim C10. Every attempt, whatever the product and the answers of the collaborators,
  begins by setting \<open>isDownloading\<close> to true and ends by setting it to false. On a mounted
  component the flag holds once the attempt has begun, and it is false when the attempt has
  settled, both for the attempt run as a whole and for its two halves in the component.
\<close>

theorem isDownloading_brackets_attempt:
  "hd (startDownload p e) = SetIsDownloading True \<and>
   last (startDownload p e) = SetIsDownloading False \<and>
   (mounted s \<longrightarrow>
      isDownloading (perform (hd (startDownload p e)) s) \<and>
      \<not> isDownloading (perform_all (startDownload p e) s) \<and>
      isDownloading (begin_attempt s) \<and>
      \<not> isDownloading (step p (Settle e) (begin_attempt s)))"
proof -
  have "mounted s \<Longrightarrow> \<not> isDownloading (step p (Settle e) (begin_attempt s))"
    by (simp add: step_settle_fields(7) isDownloading_after_rest del: step.simps)
  moreover have "mounted s \<Longrightarrow> \<not> isDownloading (perform_all (startDownload p e) s)"
    by (simp add: startDownload_def isDownloading_after_rest)
  ultimately show ?thesis
    by (simp add: startDownload_def startDownload_rest_def)
qed

text \<open>At a second attempt, which ends in a storage error.\<close>

theorem isDownloading_brackets_attempt_witness:
  "mounted (run example_product
     (replicate 30 Tick @ [Settle (answers_ok (js ''https://storage.example/signed/1''))]) mount) \<and>
   \<not> isDownloading (run example_product
     (replicate 30 Tick @ [Settle (answers_ok (js ''https://storage.example/signed/1''))]) mount) \<and>
   isDownloading (begin_attempt (run example_product
     (replicate 30 Tick @ [Settle (answers_ok (js ''https://storage.example/signed/1''))]) mount)) \<and>
   \<not> isDownloading
       (step example_product (Settle (answers_storage_error (js ''Object not found'')))
          (begin_attempt (run example_product
             (replicate 30 Tick @ [Settle (answers_ok (js ''https://storage.example/signed/1''))])
             mount)))"
proof -
  let ?s = "run example_product
     (replicate 30 Tick @ [Settle (answers_ok (js ''https://storage.example/signed/1''))]) mount"
  have h: "mounted ?s" "\<not> isDownloading ?s"
    by (simp_all add: first_download)
  from isDownloading_brackets_attempt[of example_product
      "answers_storage_error (js ''Object not found'')" ?s] h
  show ?thesis by blast
qed

text \<open>
  Claim C4, as amended. An attempt that ends in a failure never writes the completed flag:
  when it settles, \<open>downloadComplete\<close> has the value it had before the attempt. So the flag
  is false after a failed attempt exactly when it was false before it.
\<close>

theorem failed_attempt_leaves_flag:
  "list_ex is_failure (reported (startDownload p e)) \<Longrightarrow>
     filter (\<lambda>a. a = SetDownloadComplete True \<or> a = SetDownloadComplete False)
       (startDownload p e) = [] \<and>
     downloadComplete (perform_all (startDownload p e) s) = downloadComplete s \<and>
     downloadComplete (step p (Settle e) (begin_attempt s)) = downloadComplete s"
proof -
  assume "list_ex is_failure (reported (startDownload p e))"
  then have thrown: "snd (try_block p e) \<noteq> None"
    by (auto simp: reported_startDownload split: option.splits)
  then have none: "\<And>b. SetDownloadComplete b \<notin> set (startDownload p e)"
    by (simp add: complete_startDownload)
  then have none': "\<And>b. SetDownloadComplete b \<notin> set (startDownload_rest p e)"
    by (simp add: startDownload_def)
  have "filter (\<lambda>a. a = SetDownloadComplete True \<or> a = SetDownloadComplete False)
       (startDownload p e) = []"
    using none by (auto simp: filter_empty_conv)
  moreover have "downloadComplete (perform_all (startDownload p e) s) = downloadComplete s"
    using none by (rule perform_all_no_complete)
  moreover have "downloadComplete (step p (Settle e) (begin_attempt s)) = downloadComplete s"
    using perform_all_no_complete[of "startDownload_rest p e" "begin_attempt s", OF none']
    by (simp add: step_settle_fields(6) del: step.simps)
  ultimately show ?thesis by blast
qed

text \<open>At the automatic attempt, answered by a storage error.\<close>

theorem failed_attempt_leaves_flag_witness:
  "list_ex is_failure
     (reported (startDownload example_product (answers_storage_error (js ''Object not found'')))) \<and>
   \<not> downloadComplete (run example_product (replicate 30 Tick) mount) \<and>
   \<not> downloadComplete
       (step example_product (Settle (answers_storage_error (js ''Object not found'')))
          (begin_attempt (run example_product (replicate 30 Tick) mount)))"
proof -
  let ?e = "answers_storage_error (js ''Object not found'')"
  let ?s = "run example_product (replicate 30 Tick) mount"
  have h: "list_ex is_failure (reported (startDownload example_product ?e))"
    by (simp add: example_attempt_storage_error)
  have b: "\<not> downloadComplete ?s"
    by (simp add: ticks_30)
  from failed_attempt_leaves_flag[OF h, of ?s] b
  have "\<not> downloadComplete (step example_product (Settle ?e) (begin_attempt ?s))"
    by blast
  with h b show ?thesis by blast
qed

text \<open>
  Without the amendment the statement fails when the flag held before the attempt: after
  a first download, a second attempt that ends in a storage error settles with
  \<open>downloadComplete\<close> still true.
\<close>

theorem failed_retry_keeps_flag_counterexample:
  "reported (startDownload example_product (answers_storage_error (js ''Object not found''))) =
     [Failure (js ''Storage error: Object not found'')] \<and>
   downloadComplete
     (run example_product
        (replicate 30 Tick @ [Settle (answers_ok (js ''https://storage.example/signed/1''))])
        mount) \<and>
   downloadComplete
     (run example_product
        (replicate 30 Tick @
         [Settle (answers_ok (js ''https://storage.example/signed/1'')),
          DownloadAgain,
          Settle (answers_storage_error (js ''Object not found''))])
        mount)"
proof -
  have "run example_product
        (replicate 30 Tick @
         [Settle (answers_ok (js ''https://storage.example/signed/1'')),
          DownloadAgain,
          Settle (answers_storage_error (js ''Object not found''))])
        mount =
      run example_product [DownloadAgain, Settle (answers_storage_error (js ''Object not found''))]
        (run example_product
          (replicate 30 Tick @ [Settle (answers_ok (js ''https://storage.example/signed/1''))])
          mount)"
    by (simp add: run_append del: step.simps)
  then show ?thesis
    by (simp add: first_download example_attempt_storage_error startDownload_rest_tl
        begin_attempt_def rerender_def)
qed

text \<open>
  Claim C8. On a mounted component whose completed flag holds, a click on \<open>Download
  Again\<close> starts an attempt that, once settled, has added the whole of \<open>startDownload\<close> to
  the actions performed: it calls the storage collaborator once more, every URL it hands
  to a strategy is the one this call returned (none is kept from an earlier attempt), and
  when it reports success it has set the completed flag to true again.
\<close>

theorem download_again_issues_fresh_url:
  "mounted s \<Longrightarrow> downloadComplete s \<Longrightarrow> truthy (file_url p) = Some url \<Longrightarrow>
     log (run p [DownloadAgain, Settle e] s) = log s @ startDownload p e \<and>
     filter storage_call (startDownload p e) =
       [CreateSignedUrl (js ''product-files'') (filename url) 3600] \<and>
     (\<forall>u \<in> set (used_urls (startDownload p e)).
        createSignedUrl e (js ''product-files'') (filename url) 3600 =
          StorageResolves (Some u) None) \<and>
     (reported (startDownload p e) = [Success] \<longrightarrow>
        SetDownloadComplete True \<in> set (startDownload p e)) \<and>
     downloadComplete (run p [DownloadAgain, Settle e] s)"
proof -
  assume m: "mounted s" and d: "downloadComplete s" and t: "truthy (file_url p) = Some url"
  have "log (run p [DownloadAgain, Settle e] s) = log s @ startDownload p e"
    using m d by (simp add: step_settle_fields startDownload_def del: step.simps(2))
  moreover have "downloadComplete (run p [DownloadAgain, Settle e] s)"
    using m d by (simp add: step_settle_fields settle_keeps_complete del: step.simps(2))
  moreover have "reported (startDownload p e) = [Success] \<longrightarrow>
        SetDownloadComplete True \<in> set (startDownload p e)"
    by (auto simp: reported_startDownload complete_startDownload split: option.splits)
  moreover note storage_call_startDownload[OF t, of e] used_urls_startDownload[OF t, of _ e]
  ultimately show ?thesis by blast
qed

text \<open>
  After a first download with the URL \<open>signed/1\<close>: the second attempt calls the
  collaborator again and uses the URL \<open>signed/2\<close> it is given.
\<close>

theorem download_again_issues_fresh_url_witness:
  "mounted (run example_product
     (replicate 30 Tick @ [Settle (answers_ok (js ''https://storage.example/signed/1''))]) mount) \<and>
   downloadComplete (run example_product
     (replicate 30 Tick @ [Settle (answers_ok (js ''https://storage.example/signed/1''))]) mount) \<and>
   truthy (file_url example_product) = Some (js ''abc123.zip'') \<and>
   used_urls (startDownload example_product (answers_ok (js ''https://storage.example/signed/2''))) =
     [js ''https://storage.example/signed/2''] \<and>
   createSignedUrl (answers_ok (js ''https://storage.example/signed/2''))
     (js ''product-files'') (filename (js ''abc123.zip'')) 3600 =
     StorageResolves (Some (js ''https://storage.example/signed/2'')) None \<and>
   reported (startDownload example_product (answers_ok (js ''https://storage.example/signed/2''))) =
     [Success] \<and>
   SetDownloadComplete True \<in>
     set (startDownload example_product (answers_ok (js ''https://storage.example/signed/2''))) \<and>
   filter storage_call
     (log (run example_product
        [DownloadAgain, Settle (answers_ok (js ''https://storage.example/signed/2''))]
        (run example_product
           (replicate 30 Tick @ [Settle (answers_ok (js ''https://storage.example/signed/1''))])
           mount))) =
     [CreateSignedUrl (js ''product-files'') (js ''abc123.zip'') 3600,
      CreateSignedUrl (js ''product-files'') (js ''abc123.zip'') 3600] \<and>
   downloadComplete
     (run example_product
        [DownloadAgain, Settle (answers_ok (js ''https://storage.example/signed/2''))]
        (run example_product
           (replicate 30 Tick @ [Settle (answers_ok (js ''https://storage.example/signed/1''))])
           mount))"
proof -
  let ?s = "run example_product
     (replicate 30 Tick @ [Settle (answers_ok (js ''https://storage.example/signed/1''))]) mount"
  let ?e = "answers_ok (js ''https://storage.example/signed/2'')"
  have h: "mounted ?s" "downloadComplete ?s"
    by (simp_all add: first_download)
  have l: "log ?s = startDownload example_product (answers_ok (js ''https://storage.example/signed/1''))"
    by (simp add: first_download)
  have u: "used_urls (startDownload example_product ?e) = [js ''https://storage.example/signed/2'']"
    by (simp add: example_attempt_ok)
  have r: "reported (startDownload example_product ?e) = [Success]"
    by (simp add: example_attempt_ok)
  note th = download_again_issues_fresh_url[OF h example_truthy, of ?e]
  from th have 1: "log (run example_product [DownloadAgain, Settle ?e] ?s) =
      log ?s @ startDownload example_product ?e"
    by blast
  have 2: "filter storage_call (log (run example_product [DownloadAgain, Settle ?e] ?s)) =
     [CreateSignedUrl (js ''product-files'') (js ''abc123.zip'') 3600,
      CreateSignedUrl (js ''product-files'') (js ''abc123.zip'') 3600]"
    unfolding 1 l by (simp add: example_attempt_ok)
  from th u have 3: "createSignedUrl ?e (js ''product-files'') (filename (js ''abc123.zip'')) 3600 =
     StorageResolves (Some (js ''https://storage.example/signed/2'')) None"
    by simp
  from th r have 4: "SetDownloadComplete True \<in> set (startDownload example_product ?e)"
    by blast
  from th have 5: "downloadComplete (run example_product [DownloadAgain, Settle ?e] ?s)"
    by blast
  from h example_truthy u 3 r 4 2 5 show ?thesis by blast
qed

end
